theory Spec2Isabelle
  imports Main "HOL-Library.Sublist"
begin

text \<open>
  The selector extractors of \<open>extract-selectors.ts\<close>: \<open>extractSelectorsFromHtml\<close>,
  \<open>extractSelectorsFromJS\<close>, \<open>extractSelectorsWithRegex\<close> and
  \<open>extractSelectorsFromSvelte\<close>, each a function from what its parser reports to the list of
  selectors, with every exception of the callbacks as a value.
\<close>

section \<open>Strings and characters\<close>

text \<open>
  A JavaScript string is a sequence of UTF-16 code units. The model uses \<open>string\<close>; a
  \<open>char\<close> stands for the code unit with the same number, so the model covers the code
  units below 256 (ASCII and Latin-1). The character classes below are the regular
  expression classes of the source restricted to that range.
\<close>

definition word_chars :: string where
  "word_chars = ''abcdefghijklmnopqrstuvwxyzABCDEFGHIJKLMNOPQRSTUVWXYZ0123456789_''"

definition is_word :: "char \<Rightarrow> bool" where
  \<comment> \<open>\<open>\w\<close>\<close>
  "is_word c = (c \<in> set word_chars)"

definition in_class :: "char \<Rightarrow> bool" where
  \<comment> \<open>\<open>[\w\-:./![\]]\<close>\<close>
  "in_class c = (is_word c \<or> c \<in> set ''-:./![]'')"

definition is_space :: "char \<Rightarrow> bool" where
  \<comment> \<open>\<open>\s\<close>, which is also what \<open>trim\<close> strips: tab, line feed, vertical tab, form feed,
     carriage return, space, no-break space\<close>
  "is_space c = (c \<in> set [CHR 0x09, CHR 0x0A, CHR 0x0B, CHR 0x0C, CHR 0x0D, CHR '' '', CHR 0xA0])"

definition to_lower_char :: "char \<Rightarrow> char" where
  \<comment> \<open>the capital letters of ASCII (65 to 90) and of Latin-1 (192 to 222 without the
     multiplication sign 215) are 32 below their small letters: bit 5 is clear in all of
     them, and setting it adds 32\<close>
  "to_lower_char c =
     (let n = (of_char c :: nat)
      in if (65 \<le> n \<and> n \<le> 90) \<or> (192 \<le> n \<and> n \<le> 222 \<and> n \<noteq> 215)
         then (case c of Char b0 b1 b2 b3 b4 b5 b6 b7 \<Rightarrow> Char b0 b1 b2 b3 b4 True b6 b7)
         else c)"

definition toLowerCase :: "string \<Rightarrow> string" where
  "toLowerCase s = map to_lower_char s"

definition trim :: "string \<Rightarrow> string" where
  "trim s = rev (dropWhile is_space (rev (dropWhile is_space s)))"

text \<open>\<open>s.split(sep)\<close> for a one-character separator: \<open>"".split(" ")\<close> is \<open>[""]\<close>, and two
  separators in a row give an empty token.\<close>

fun split_on :: "char \<Rightarrow> string \<Rightarrow> string list" where
  "split_on sep [] = [[]]"
| "split_on sep (c # cs) =
     (if c = sep then [] # split_on sep cs
      else (case split_on sep cs of [] \<Rightarrow> [[c]] | t # ts \<Rightarrow> (c # t) # ts))"

text \<open>\<open>s.split(/\s+/)\<close>: a separator is a maximal run of whitespace; leading or trailing
  whitespace gives an empty first or last token.\<close>

function split_ws :: "string \<Rightarrow> string list" where
  "split_ws [] = [[]]"
| "split_ws (c # cs) =
     (if is_space c then [] # split_ws (dropWhile is_space cs)
      else (case split_ws cs of [] \<Rightarrow> [[c]] | t # ts \<Rightarrow> (c # t) # ts))"
  by pat_completeness auto
termination
  by (relation "measure length") (auto simp: less_Suc_eq_le length_dropWhile_le)

definition filter_Boolean :: "string list \<Rightarrow> string list" where
  \<comment> \<open>\<open>.filter(Boolean)\<close> on strings: the empty string is the only falsy one\<close>
  "filter_Boolean ts = filter (\<lambda>t. t \<noteq> []) ts"

section \<open>The regular expression \<open>/[\w\-:./![\]]+(?<!:)/\<close>\<close>

text \<open>
  One attempt at a fixed start: \<open>[...]+\<close> is greedy, so it first takes the whole run of
  class characters; the lookbehind \<open>(?<!:)\<close> then fails when the character before the end
  is a colon, and the engine backtracks by giving back one character at a time. The
  quantifier needs one character at least.
\<close>

fun backtrack :: "string \<Rightarrow> string option" where
  "backtrack [] = None"
| "backtrack (c # cs) =
     (if last (c # cs) \<noteq> CHR '':'' then Some (c # cs) else backtrack (butlast (c # cs)))"

definition match_at :: "string \<Rightarrow> string option" where
  "match_at s = backtrack (takeWhile in_class s)"

text \<open>The leftmost match in \<open>s\<close>: its start offset and its text.\<close>

fun exec :: "string \<Rightarrow> (nat \<times> string) option" where
  "exec [] = None"
| "exec (c # cs) =
     (case match_at (c # cs) of
        Some m \<Rightarrow> Some (0, m)
      | None \<Rightarrow> (case exec cs of None \<Rightarrow> None | Some (i, m) \<Rightarrow> Some (Suc i, m)))"

definition regexp_test :: "string \<Rightarrow> bool" where
  \<comment> \<open>\<open>/.../.test(s)\<close> without the \<open>g\<close> flag: is there a match anywhere in \<open>s\<close>\<close>
  "regexp_test s = (exec s \<noteq> None)"

definition regexp_test_g :: "nat \<Rightarrow> string \<Rightarrow> bool \<times> nat" where
  \<comment> \<open>\<open>re.test(s)\<close> with the \<open>g\<close> flag: the search starts at \<open>lastIndex\<close>; a match leaves
     \<open>lastIndex\<close> at its end, a failure resets it to 0. Returns the result and the new
     \<open>lastIndex\<close>.\<close>
  "regexp_test_g lastIndex s =
     (if lastIndex > length s then (False, 0)
      else (case exec (drop lastIndex s) of
              None \<Rightarrow> (False, 0)
            | Some (i, m) \<Rightarrow> (True, lastIndex + i + length m)))"

lemma backtrack_Some: "backtrack r = Some m \<Longrightarrow> m \<noteq> [] \<and> last m \<noteq> CHR '':'' \<and> prefix m r"
proof (induction r arbitrary: m rule: backtrack.induct)
  case 1
  then show ?case by simp
next
  case (2 c cs)
  show ?case
  proof (cases "last (c # cs) = CHR '':''")
    case False
    with "2.prems" have "m = c # cs" by (simp only: backtrack.simps simp_thms if_True option.inject)
    with False show ?thesis by simp
  next
    case True
    with "2.prems" have "backtrack (butlast (c # cs)) = Some m"
      by (simp only: backtrack.simps simp_thms if_False)
    with True "2.IH" have "m \<noteq> [] \<and> last m \<noteq> CHR '':'' \<and> prefix m (butlast (c # cs))"
      by blast
    moreover have "prefix (butlast (c # cs)) (c # cs)" by (rule prefixeq_butlast)
    ultimately show ?thesis using prefix_order.trans by blast
  qed
qed

lemma exec_Some: "exec s = Some (i, m) \<Longrightarrow> m \<noteq> [] \<and> last m \<noteq> CHR '':'' \<and> i + length m \<le> length s"
proof (induction s arbitrary: i m)
  case Nil
  then show ?case by simp
next
  case (Cons c cs)
  show ?case
  proof (cases "match_at (c # cs)")
    case (Some m')
    with Cons.prems have eq: "i = 0" "m = m'" by auto
    from Some have b: "m' \<noteq> [] \<and> last m' \<noteq> CHR '':'' \<and> prefix m' (takeWhile in_class (c # cs))"
      unfolding match_at_def by (rule backtrack_Some)
    then have "length m' \<le> length (takeWhile in_class (c # cs))" by (simp add: prefix_length_le)
    also have "\<dots> \<le> length (c # cs)" by (rule length_takeWhile_le)
    finally show ?thesis using eq b by simp
  next
    case None
    with Cons.prems obtain j where j: "exec cs = Some (j, m)" "i = Suc j"
      by (auto split: option.splits)
    from Cons.IH[OF j(1)] j(2) show ?thesis by simp
  qed
qed

text \<open>\<open>s.match(re)\<close> with the \<open>g\<close> flag: every match, left to right, each search starting
  where the match before ended.\<close>

function match_all :: "string \<Rightarrow> string list" where
  "match_all s =
     (case exec s of None \<Rightarrow> [] | Some (i, m) \<Rightarrow> m # match_all (drop (i + length m) s))"
  by pat_completeness auto
termination
proof (relation "measure length", goal_cases)
  case 1
  show ?case by simp
next
  case (2 s x i m)
  then have "exec s = Some (i, m)" by simp
  from exec_Some[OF this] have "m \<noteq> []" "i + length m \<le> length s" by auto
  then show ?case by (cases m) auto
qed

declare match_all.simps [simp del]

section \<open>Sets and maps in insertion order\<close>

text \<open>A JavaScript \<open>Set\<close> iterates in insertion order and ignores a second \<open>add\<close> of
  the same value. A \<open>Map\<close> iterates in the order of each key's first \<open>set\<close>; a later
  \<open>set\<close> of the same key replaces the value and keeps the place.\<close>

definition set_add :: "'a \<Rightarrow> 'a list \<Rightarrow> 'a list" where
  "set_add x xs = (if x \<in> set xs then xs else xs @ [x])"

fun map_set :: "'k \<Rightarrow> 'v \<Rightarrow> ('k \<times> 'v) list \<Rightarrow> ('k \<times> 'v) list" where
  "map_set k v [] = [(k, v)]"
| "map_set k v ((k', v') # m) = (if k' = k then (k, v) # m else (k', v') # map_set k v m)"

definition map_get :: "('k \<times> 'v) list \<Rightarrow> 'k \<Rightarrow> 'v option" where
  "map_get m k = map_of m k"

section \<open>Values of the parsers\<close>

text \<open>
  The three parsers (htmlparser2, acorn, the Svelte compiler) are libraries outside the
  repository. The model takes what they hand to the code: attribute events, tokens, a
  syntax tree. Tokens and trees are JavaScript values: \<open>undefined\<close>, \<open>null\<close>, booleans,
  numbers, strings, arrays, and objects as lists of properties in insertion order.
\<close>

datatype jv =
    Undefined
  | Null
  | Bool bool
  | Num int
  | Str string
  | Arr "jv list"
  | Obj "(string \<times> jv) list"

text \<open>\<open>TypeError\<close> is what JavaScript throws on a property read of \<open>null\<close> or
  \<open>undefined\<close> and on a call of something that is no function. \<open>IllTyped\<close> is not an
  exception of the program: the TypeScript types of the source make \<open>name\<close> a string
  wherever it is used as a key, and the model stops with \<open>IllTyped\<close> on a tree that
  breaks this, where the program would go on with a key that is no string.\<close>

datatype error = TypeError | IllTyped

text \<open>A loop whose body can throw: the first error ends it.\<close>

fun foldM :: "('a \<Rightarrow> 's \<Rightarrow> error + 's) \<Rightarrow> 'a list \<Rightarrow> 's \<Rightarrow> error + 's" where
  "foldM f [] s = Inr s"
| "foldM f (x # xs) s = (case f x s of Inl e \<Rightarrow> Inl e | Inr s' \<Rightarrow> foldM f xs s')"

definition nullish :: "jv \<Rightarrow> bool" where
  "nullish v = (v = Undefined \<or> v = Null)"

definition get :: "jv \<Rightarrow> string \<Rightarrow> jv" where
  \<comment> \<open>\<open>v.k\<close> for a \<open>v\<close> that is neither \<open>null\<close> nor \<open>undefined\<close>. The names the source reads
     (\<open>type\<close>, \<open>name\<close>, \<open>value\<close>, \<open>init\<close>, \<open>callee\<close>, \<open>object\<close>, \<open>elements\<close>, \<open>right\<close>,
     \<open>expression\<close>, \<open>data\<close>, \<open>children\<close>, \<open>raw\<close>) are no built-in properties of booleans,
     numbers, strings or arrays, so only an object can have them.\<close>
  "get v k = (case v of Obj kvs \<Rightarrow> (case map_of kvs k of Some x \<Rightarrow> x | None \<Rightarrow> Undefined)
                     | _ \<Rightarrow> Undefined)"

definition opt :: "jv \<Rightarrow> string \<Rightarrow> jv" where
  \<comment> \<open>\<open>v?.k\<close>\<close>
  "opt v k = (if nullish v then Undefined else get v k)"

definition truthy :: "jv \<Rightarrow> bool" where
  "truthy v = (case v of Undefined \<Rightarrow> False | Null \<Rightarrow> False | Bool b \<Rightarrow> b
                       | Num n \<Rightarrow> n \<noteq> 0 | Str s \<Rightarrow> s \<noteq> [] | Arr _ \<Rightarrow> True | Obj _ \<Rightarrow> True)"

section \<open>\<open>extractSelectorsFromHtml\<close>\<close>

definition format_class :: "string \<Rightarrow> string" where
  \<comment> \<open>\<open>selector[0] === "." ? selector : "." + selector\<close>\<close>
  "format_class selector =
     (case selector of
        [] \<Rightarrow> ''.'' @ selector
      | c # _ \<Rightarrow> if c = CHR ''.'' then selector else ''.'' @ selector)"

text \<open>The \<open>onattribute\<close> callback on the two sets \<open>selectors\<close> and \<open>ids\<close>. The third
  argument of the callback (the quote) is not read. \<open>ATTRIBUTES\<close> is the list of reserved
  names imported from \<open>./constants\<close>, a file that is not part of the sources at hand: it
  is a parameter.\<close>

definition onattribute ::
  "string list \<Rightarrow> string \<Rightarrow> string \<Rightarrow> string list \<times> string list \<Rightarrow> string list \<times> string list" where
  "onattribute ATTRIBUTES name val st =
     (case st of (selectors, ids) \<Rightarrow>
        if name = ''class'' then (fold set_add (split_on CHR '' '' val) selectors, ids)
        else if name = ''id'' then (selectors, set_add val ids)
        else if name \<in> set ATTRIBUTES then (selectors, ids)
        else
          (let selectors' =
                 fold (\<lambda>selector acc. if regexp_test selector then set_add selector acc else acc)
                   (split_on CHR '' '' val) selectors
           in (if regexp_test name then set_add name selectors' else selectors', ids)))"

text \<open>The argument \<open>events\<close> is the sequence of \<open>(name, value)\<close> attribute events the
  parser emits for \<open>code\<close>, in document order.\<close>

definition extractSelectorsFromHtml :: "string list \<Rightarrow> (string \<times> string) list \<Rightarrow> string list" where
  "extractSelectorsFromHtml ATTRIBUTES events =
     (case fold (\<lambda>(name, val). onattribute ATTRIBUTES name val) events ([], []) of
        (selectors, ids) \<Rightarrow>
          (let formattedIds = map (\<lambda>id. ''#'' @ id) ids;
               formattedClasses = map format_class selectors
           in formattedIds @ formattedClasses))"

section \<open>\<open>extractSelectorsFromJS\<close>\<close>

record token =
  label :: string
  tvalue :: jv

text \<open>The \<open>onToken\<close> callback: \<open>token.value\<close> is cast to a string and split; a value that
  is no string has no \<open>split\<close>, and the call throws.\<close>

definition onToken :: "token \<Rightarrow> string list \<Rightarrow> error + string list" where
  "onToken tok selectors =
     (if label tok = ''string'' then
        (case tvalue tok of
           Str v \<Rightarrow>
             Inr (fold (\<lambda>selector acc. if regexp_test selector then set_add selector acc else acc)
                    (split_on CHR '' '' v) selectors)
         | _ \<Rightarrow> Inl TypeError)
      else Inr selectors)"

text \<open>The argument \<open>tokens\<close> is the sequence of tokens acorn reports for \<open>code\<close>; when
  \<open>code\<close> does not parse, acorn throws and the function returns nothing.\<close>

definition extractSelectorsFromJS :: "token list \<Rightarrow> error + string list" where
  "extractSelectorsFromJS tokens =
     (case foldM onToken tokens [] of
        Inl e \<Rightarrow> Inl e
      | Inr selectors \<Rightarrow> Inr (map format_class selectors))"

section \<open>\<open>extractSelectorsWithRegex\<close>\<close>

definition extractSelectorsWithRegex :: "string \<Rightarrow> string list" where
  "extractSelectorsWithRegex code =
     (let selectors = match_all code;
          classes = fold set_add selectors []
      in map format_class classes)"

section \<open>\<open>extractSelectorsFromSvelte\<close>\<close>

subsection \<open>The state of the walk\<close>

record Selector =
  sel_type :: string
  sel_name :: "string option"

text \<open>The three collections of the function: the map \<open>selectors\<close>, the set
  \<open>identifiers\<close>, and the map \<open>ids\<close> (its values \<open>{ value: string[] }\<close> are the arrays
  themselves here).\<close>

record wstate =
  selectors :: "(string \<times> Selector) list"
  identifiers :: "string list"
  ids :: "(string \<times> string list) list"

definition toArray :: "jv \<Rightarrow> string list" where
  "toArray v = (case v of Str s \<Rightarrow> map trim (split_ws s) | _ \<Rightarrow> [])"

definition Class :: Selector where
  \<comment> \<open>\<open>{ type: "Class" }\<close>\<close>
  "Class = \<lparr>sel_type = ''Class'', sel_name = None\<rparr>"

subsection \<open>\<open>CLASS_REGEX.test\<close>\<close>

text \<open>\<open>CLASS_REGEX\<close> has the \<open>g\<close> flag and is created once per call of \<open>enter\<close>; its
  \<open>lastIndex\<close> lives on from one \<open>test\<close> to the next inside that call. The functions
  below carry it next to the map.\<close>

definition test_and_set ::
  "string \<Rightarrow> (string \<times> Selector) list \<times> nat \<Rightarrow> (string \<times> Selector) list \<times> nat" where
  \<comment> \<open>\<open>if (CLASS_REGEX.test(selector)) selectors.set(selector, { type: "Class" })\<close>\<close>
  "test_and_set selector p =
     (case p of (sels, lastIndex) \<Rightarrow>
        (case regexp_test_g lastIndex selector of
           (True, lastIndex') \<Rightarrow> (map_set selector Class sels, lastIndex')
         | (False, lastIndex') \<Rightarrow> (sels, lastIndex')))"

definition class_tokens ::
  "string \<Rightarrow> (string \<times> Selector) list \<times> nat \<Rightarrow> (string \<times> Selector) list \<times> nat" where
  \<comment> \<open>\<open>text.split(/\s+/).filter(Boolean).forEach(...)\<close> with the test above\<close>
  "class_tokens text p = fold test_and_set (filter_Boolean (split_ws text)) p"

subsection \<open>The parts of \<open>enter\<close>\<close>

definition bind_err :: "error + 'a \<Rightarrow> ('a \<Rightarrow> error + 'b) \<Rightarrow> error + 'b" where
  "bind_err m f = (case m of Inl e \<Rightarrow> Inl e | Inr x \<Rightarrow> f x)"

definition set_named :: "jv \<Rightarrow> Selector \<Rightarrow> wstate \<Rightarrow> error + wstate" where
  \<comment> \<open>\<open>selectors.set(node.name, meta)\<close>\<close>
  "set_named node meta st =
     (case get node ''name'' of
        Str n \<Rightarrow> Inr (st\<lparr>selectors := map_set n meta (selectors st)\<rparr>)
      | _ \<Rightarrow> Inl IllTyped)"

text \<open>The callback of \<open>elements?.forEach\<close> (lines 120 to 130); \<open>ident\<close> is the
  source's \<open>id\<close>.\<close>

definition capture_element ::
  "string \<Rightarrow> jv \<Rightarrow> (string \<times> string list) list \<Rightarrow> error + (string \<times> string list) list" where
  "capture_element ident element m =
     (if nullish element then Inl TypeError
      else
        (let m1 = (if get element ''type'' = Str ''Literal''
                   then map_set ident (toArray (get element ''value'')) m else m);
             m2 = (if get element ''type'' = Str ''LogicalExpression''
                      \<and> truthy (opt (get element ''right'') ''value'')
                   then map_set ident (toArray (opt (get element ''right'') ''value'')) m1 else m1)
         in Inr m2))"

text \<open>\<open>if (node.type === "Identifier") { ... }\<close> (lines 112 to 132).\<close>

definition enter_Identifier :: "jv \<Rightarrow> jv \<Rightarrow> wstate \<Rightarrow> error + wstate" where
  "enter_Identifier node parent st =
     (if get node ''type'' = Str ''Identifier'' then
        (case get node ''name'' of
           Str ident \<Rightarrow>
             (if nullish parent then Inl TypeError
              else
                (let init = get parent ''init'';
                     m1 = (if opt init ''type'' = Str ''Literal''
                           then map_set ident (toArray (get init ''value'')) (ids st) else ids st)
                 in if opt init ''type'' = Str ''CallExpression'' then
                      (case opt (opt (get init ''callee'') ''object'') ''elements'' of
                         Undefined \<Rightarrow> Inr (st\<lparr>ids := m1\<rparr>)
                       | Null \<Rightarrow> Inr (st\<lparr>ids := m1\<rparr>)
                       | Arr elements \<Rightarrow>
                           bind_err (foldM (capture_element ident) elements m1)
                             (\<lambda>m2. Inr (st\<lparr>ids := m2\<rparr>))
                       | _ \<Rightarrow> Inl TypeError)
                    else Inr (st\<lparr>ids := m1\<rparr>)))
         | _ \<Rightarrow> Inl IllTyped)
      else Inr st)"

text \<open>The callback given to \<open>node.value.map\<close>, written twice in the source with the same
  text (lines 143 to 159 and 167 to 185).\<close>

definition value_part :: "jv \<Rightarrow> wstate \<times> nat \<Rightarrow> error + wstate \<times> nat" where
  "value_part v p =
     (case p of (st, lastIndex) \<Rightarrow>
        if nullish v then Inl TypeError
        else if get v ''type'' = Str ''MustacheTag'' then
          (if opt (get v ''expression'') ''type'' = Str ''Identifier'' then
             (case get (get v ''expression'') ''name'' of
                Str n \<Rightarrow> Inr (st\<lparr>identifiers := set_add n (identifiers st)\<rparr>, lastIndex)
              | _ \<Rightarrow> Inl IllTyped)
           else Inr (st, lastIndex))
        else if get v ''type'' = Str ''Text'' then
          (case get v ''data'' of
             Str d \<Rightarrow>
               (case class_tokens d (selectors st, lastIndex) of
                  (sels, lastIndex') \<Rightarrow> Inr (st\<lparr>selectors := sels\<rparr>, lastIndex'))
           | _ \<Rightarrow> Inl TypeError)
        else Inr (st, lastIndex))"

text \<open>\<open>if (node.type === "Attribute" && node.name === "class") { node.value?.map(...) }\<close>\<close>

definition enter_class_Attribute :: "jv \<Rightarrow> wstate \<times> nat \<Rightarrow> error + wstate \<times> nat" where
  "enter_class_Attribute node p =
     (if get node ''type'' = Str ''Attribute'' \<and> get node ''name'' = Str ''class'' then
        (case get node ''value'' of
           Undefined \<Rightarrow> Inr p
         | Null \<Rightarrow> Inr p
         | Arr parts \<Rightarrow> foldM value_part parts p
         | _ \<Rightarrow> Inl TypeError)
      else Inr p)"

text \<open>\<open>if (node.type === "Attribute") { ... }\<close>: \<open>typeof node.value === "object"\<close> holds
  for arrays, objects and \<open>null\<close>, and only an array has \<open>map\<close>.\<close>

definition enter_Attribute :: "jv \<Rightarrow> wstate \<times> nat \<Rightarrow> error + wstate \<times> nat" where
  "enter_Attribute node p =
     (case p of (st, lastIndex) \<Rightarrow>
        if get node ''type'' = Str ''Attribute'' then
          bind_err (set_named node \<lparr>sel_type = ''Attribute'', sel_name = None\<rparr> st)
            (\<lambda>st1. case get node ''value'' of
                      Arr parts \<Rightarrow> foldM value_part parts (st1, lastIndex)
                    | Null \<Rightarrow> Inl TypeError
                    | Obj _ \<Rightarrow> Inl TypeError
                    | _ \<Rightarrow> Inr (st1, lastIndex))
        else Inr p)"

text \<open>\<open>node.children[0]\<close>\<close>

definition index0 :: "jv \<Rightarrow> error + jv" where
  "index0 v =
     (case v of
        Undefined \<Rightarrow> Inl TypeError
      | Null \<Rightarrow> Inl TypeError
      | Arr xs \<Rightarrow> (case xs of [] \<Rightarrow> Inr Undefined | x # _ \<Rightarrow> Inr x)
      | Str cs \<Rightarrow> (case cs of [] \<Rightarrow> Inr Undefined | c # _ \<Rightarrow> Inr (Str [c]))
      | Obj kvs \<Rightarrow> Inr (get (Obj kvs) ''0'')
      | _ \<Rightarrow> Inr Undefined)"

text \<open>\<open>if (node.type === "PseudoClassSelector" && node.name === "global") { ... }\<close>: the
  \<open>?.\<close> after \<open>children[0]\<close> skips the whole chain when there is no first child.\<close>

definition enter_global :: "jv \<Rightarrow> wstate \<Rightarrow> error + wstate" where
  "enter_global node st =
     (if get node ''type'' = Str ''PseudoClassSelector'' \<and> get node ''name'' = Str ''global'' then
        bind_err (index0 (get node ''children''))
          (\<lambda>child.
             if nullish child then Inr st
             else
               (case get child ''value'' of
                  Str raw \<Rightarrow>
                    Inr (st\<lparr>selectors :=
                           fold (\<lambda>selector.
                                   map_set (trim selector)
                                     \<lparr>sel_type = ''PseudoClassSelector'', sel_name = Some ''global''\<rparr>)
                             (split_on CHR '','' raw) (selectors st)\<rparr>)
                | _ \<Rightarrow> Inl TypeError))
      else Inr st)"

text \<open>\<open>if (node.type === "Literal" && typeof node.value === "string") { ... }\<close>\<close>

definition enter_Literal :: "jv \<Rightarrow> wstate \<Rightarrow> wstate" where
  "enter_Literal node st =
     (if get node ''type'' = Str ''Literal'' then
        (case get node ''value'' of
           Str v \<Rightarrow>
             st\<lparr>selectors :=
                  fold (\<lambda>selector sels.
                          if toLowerCase selector = selector then map_set selector Class sels
                          else sels)
                    (filter_Boolean (split_ws v)) (selectors st)\<rparr>
         | _ \<Rightarrow> st)
      else st)"

text \<open>\<open>if (node.type === "TemplateElement" && typeof node.value.raw === "string") { ... }\<close>\<close>

definition enter_TemplateElement :: "jv \<Rightarrow> wstate \<times> nat \<Rightarrow> error + wstate \<times> nat" where
  "enter_TemplateElement node p =
     (case p of (st, lastIndex) \<Rightarrow>
        if get node ''type'' = Str ''TemplateElement'' then
          (if nullish (get node ''value'') then Inl TypeError
           else
             (case get (get node ''value'') ''raw'' of
                Str raw \<Rightarrow>
                  (case class_tokens raw (selectors st, lastIndex) of
                     (sels, lastIndex') \<Rightarrow> Inr (st\<lparr>selectors := sels\<rparr>, lastIndex'))
              | _ \<Rightarrow> Inr p))
        else Inr p)"

subsection \<open>\<open>enter\<close>\<close>

text \<open>The callback in the order of the source; \<open>CLASS_REGEX\<close> starts with
  \<open>lastIndex = 0\<close>.\<close>

definition enter :: "jv \<Rightarrow> jv \<Rightarrow> wstate \<Rightarrow> error + wstate" where
  "enter node parent st =
     bind_err (enter_Identifier node parent st) (\<lambda>st1.
     bind_err (if get node ''type'' = Str ''Element''
               then set_named node \<lparr>sel_type = ''Element'', sel_name = None\<rparr> st1
               else Inr st1) (\<lambda>st2.
     bind_err (enter_class_Attribute node (st2, 0)) (\<lambda>p3.
     bind_err (enter_Attribute node p3) (\<lambda>(st4, lastIndex4).
     bind_err (if get node ''type'' = Str ''Class''
               then set_named node \<lparr>sel_type = ''Class'', sel_name = None\<rparr> st4
               else Inr st4) (\<lambda>st5.
     bind_err (enter_global node st5) (\<lambda>st6.
     bind_err (enter_TemplateElement node (enter_Literal node st6, lastIndex4)) (\<lambda>(st8, _).
     Inr st8)))))))"

subsection \<open>\<open>walk\<close>\<close>

text \<open>
  \<open>walk\<close> is the syntax tree walker the Svelte compiler exports. It calls \<open>enter\<close> on a
  node, then goes through the node's properties in order: in a property that is an array
  it visits every item that is not \<open>null\<close> and has a string \<open>type\<close> (reading \<open>type\<close> of an
  \<open>undefined\<close> item throws), and it visits a property that is itself such an object. The
  callback of this program neither skips, removes nor replaces a node, so the sequence of
  visits depends on the tree alone: \<open>visit\<close> lists the pairs of node and parent in the
  order of the calls.
\<close>

definition is_node :: "jv \<Rightarrow> bool" where
  \<comment> \<open>\<open>value !== null && typeof value.type === "string"\<close>, for an object or array\<close>
  "is_node v = (case get v ''type'' of Str _ \<Rightarrow> True | _ \<Rightarrow> False)"

definition properties :: "jv \<Rightarrow> jv list" where
  \<comment> \<open>the values \<open>for (const key in node)\<close> reads that are objects or arrays\<close>
  "properties node = (case node of Obj kvs \<Rightarrow> map snd kvs | Arr items \<Rightarrow> items | _ \<Rightarrow> [])"

lemma size_properties: "v \<in> set (properties node) \<Longrightarrow> size v < size node"
proof (cases node)
  case (Arr items)
  assume "v \<in> set (properties node)"
  with Arr have "v \<in> set items" by (simp add: properties_def)
  then have "size v \<le> size_list size items" by (rule size_list_estimation') simp
  with Arr show ?thesis by simp
next
  case (Obj kvs)
  assume "v \<in> set (properties node)"
  with Obj obtain k where "(k, v) \<in> set kvs" by (auto simp: properties_def)
  then have "size_prod (\<lambda>_. 0) size (k, v) \<le> size_list (size_prod (\<lambda>_. 0) size) kvs"
    by (rule size_list_estimation') simp
  with Obj show ?thesis by simp
qed (simp_all add: properties_def)

lemma size_items: "item \<in> set items \<Longrightarrow> size item < size (Arr items)"
proof -
  assume "item \<in> set items"
  then have "size item \<le> size_list size items" by (rule size_list_estimation') simp
  then show ?thesis by simp
qed

function visit :: "jv \<Rightarrow> jv \<Rightarrow> (error + jv \<times> jv) list" where
  "visit node parent =
     Inr (node, parent) #
     concat (map (\<lambda>val.
                    case val of
                      Arr items \<Rightarrow>
                        concat (map (\<lambda>item.
                                       if item = Undefined then [Inl TypeError]
                                       else if item \<noteq> Null \<and> is_node item then visit item node
                                       else []) items)
                    | Obj kvs \<Rightarrow> if is_node val then visit val node else []
                    | _ \<Rightarrow> [])
             (properties node))"
  by pat_completeness auto
termination
proof (relation "measure (\<lambda>(node, parent). size node)", goal_cases)
  case 1
  show ?case by simp
next
  case (2 node parent val items item)
  from 2(1) have "size val < size node" by (rule size_properties)
  moreover from 2(3) have "size item < size (Arr items)" by (rule size_items)
  ultimately show ?case using 2(2) by simp
next
  case (3 node parent val kvs)
  from 3(1) have "size val < size node" by (rule size_properties)
  then show ?case by simp
qed

declare visit.simps [simp del]

definition walk :: "jv \<Rightarrow> wstate \<Rightarrow> error + wstate" where
  \<comment> \<open>\<open>walk(ast, { enter })\<close>: nothing is visited when \<open>ast\<close> is falsy\<close>
  "walk ast st =
     (if truthy ast then
        foldM (\<lambda>v s. case v of Inl e \<Rightarrow> Inl e | Inr (node, parent) \<Rightarrow> enter node parent s)
          (visit ast Null) st
      else Inr st)"

subsection \<open>Resolution and output\<close>

definition FromIdentifier :: Selector where
  "FromIdentifier = \<lparr>sel_type = ''FromIdentifier'', sel_name = None\<rparr>"

text \<open>\<open>identifiers.forEach((id) => { const selector = ids.get(id); if (selector) ... })\<close>\<close>

definition resolve_identifier ::
  "(string \<times> string list) list \<Rightarrow> string \<Rightarrow> (string \<times> Selector) list \<Rightarrow> (string \<times> Selector) list" where
  "resolve_identifier m ident sels =
     (case map_get m ident of
        None \<Rightarrow> sels
      | Some vals \<Rightarrow> fold (\<lambda>v. map_set v FromIdentifier) vals sels)"

definition resolve :: "wstate \<Rightarrow> (string \<times> Selector) list" where
  "resolve st = fold (resolve_identifier (ids st)) (identifiers st) (selectors st)"

definition CLASS_SELECTOR :: "string list" where
  \<comment> \<open>Modelled from the spec: \<open>CLASS_SELECTOR\<close> is imported from \<open>./constants\<close>, which is not
     among the sources. The specification prefixes the tags Class, ClassDirective and
     FromIdentifier with a dot and no other; in the code a class directive is stored
     under its node type \<open>"Class"\<close>.\<close>
  "CLASS_SELECTOR = [''Class'', ''FromIdentifier'']"

definition format_selector :: "string \<times> Selector \<Rightarrow> string" where
  "format_selector selector =
     (case selector of (val, meta) \<Rightarrow>
        if sel_type meta \<in> set CLASS_SELECTOR then ''.'' @ val else val)"

text \<open>The argument \<open>ast\<close> is the tree \<open>parse(template, { filename })\<close> returns; when the
  template does not parse, \<open>parse\<close> throws before any of this runs.\<close>

definition extractSelectorsFromSvelte :: "jv \<Rightarrow> error + string list" where
  "extractSelectorsFromSvelte ast =
     (case walk ast \<lparr>selectors = [], identifiers = [], ids = []\<rparr> of
        Inl e \<Rightarrow> Inl e
      | Inr st \<Rightarrow> Inr (map format_selector (resolve st)))"

section \<open>The shape filter as the specification words it\<close>

text \<open>The specification's filter: the whole token matches \<open>[\w\-:./![\]]+\<close> and does not
  end in a colon. It is stated here to compare it with \<open>regexp_test\<close>, the test the code
  runs.\<close>

definition spec_shape_filter :: "string \<Rightarrow> bool" where
  "spec_shape_filter T = (T \<noteq> [] \<and> list_all in_class T \<and> last T \<noteq> CHR '':'')"

section \<open>Inputs of the examples\<close>

text \<open>
  The trees below are what the Svelte parser returns for small templates: an object with
  the properties \<open>html\<close>, \<open>css\<close>, \<open>instance\<close> and \<open>module\<close>, each node an object with its
  \<open>type\<close> first. The positions \<open>start\<close> and \<open>end\<close> of the nodes are left out: they are
  numbers, which the walker passes over and \<open>enter\<close> never reads.
\<close>

definition mk_ast :: "jv \<Rightarrow> jv \<Rightarrow> jv \<Rightarrow> jv" where
  "mk_ast html css instance =
     Obj [(''html'', html), (''css'', css), (''instance'', instance), (''module'', Undefined)]"

definition mk_node :: "string \<Rightarrow> (string \<times> jv) list \<Rightarrow> jv" where
  "mk_node t props = Obj ((''type'', Str t) # props)"

text \<open>\<^verbatim>\<open><style>:global(RAW) { color: red; }</style>\<close>, for any text \<open>RAW\<close> between the
  parentheses: the pseudo-class selector keeps it unparsed in a \<open>Raw\<close> child.\<close>

definition ast_global :: "string \<Rightarrow> jv" where
  "ast_global raw =
     mk_ast
       (mk_node ''Fragment'' [(''children'', Arr [])])
       (mk_node ''Style'' [
          (''attributes'', Arr []),
          (''children'', Arr [
             mk_node ''Rule'' [
               (''prelude'', mk_node ''SelectorList'' [
                  (''children'', Arr [
                     mk_node ''Selector'' [
                       (''children'', Arr [
                          mk_node ''PseudoClassSelector'' [
                            (''name'', Str ''global''),
                            (''children'', Arr [mk_node ''Raw'' [(''value'', Str raw)]])]])]])]),
               (''block'', mk_node ''Block'' [
                  (''children'', Arr [
                     mk_node ''Declaration'' [
                       (''important'', Bool False),
                       (''property'', Str ''color''),
                       (''value'', mk_node ''Value'' [
                          (''children'', Arr [mk_node ''Identifier'' [(''name'', Str ''red'')]])])]])])]]),
          (''content'', Obj [(''styles'', Str ('':global('' @ raw @ '') { color: red; }''))])])
       Undefined"

text \<open>\<^verbatim>\<open><div class="a b"></div>\<close>\<close>

definition ast_two_classes :: jv where
  "ast_two_classes =
     mk_ast
       (mk_node ''Fragment'' [(''children'', Arr [
          mk_node ''Element'' [(''name'', Str ''div''),
            (''attributes'', Arr [
               mk_node ''Attribute'' [(''name'', Str ''class''),
                 (''value'', Arr [mk_node ''Text'' [(''raw'', Str ''a b''), (''data'', Str ''a b'')]])]]),
            (''children'', Arr [])]])])
       Undefined Undefined"

text \<open>\<^verbatim>\<open><div class={undeclaredVar}></div>\<close>\<close>

definition ast_undeclared :: jv where
  "ast_undeclared =
     mk_ast
       (mk_node ''Fragment'' [(''children'', Arr [
          mk_node ''Element'' [(''name'', Str ''div''),
            (''attributes'', Arr [
               mk_node ''Attribute'' [(''name'', Str ''class''),
                 (''value'', Arr [
                    mk_node ''MustacheTag'' [
                      (''expression'', mk_node ''Identifier'' [(''name'', Str ''undeclaredVar'')])]])]]),
            (''children'', Arr [])]])])
       Undefined Undefined"

text \<open>\<^verbatim>\<open><script>const x = cva(["a b", cond && "c d"])</script><div class={x}></div>\<close>\<close>

definition ast_cva :: jv where
  "ast_cva =
     mk_ast
       (mk_node ''Fragment'' [(''children'', Arr [
          mk_node ''Element'' [(''name'', Str ''div''),
            (''attributes'', Arr [
               mk_node ''Attribute'' [(''name'', Str ''class''),
                 (''value'', Arr [
                    mk_node ''MustacheTag'' [
                      (''expression'', mk_node ''Identifier'' [(''name'', Str ''x'')])]])]]),
            (''children'', Arr [])]])])
       Undefined
       (mk_node ''Script'' [(''context'', Str ''default''),
          (''content'', mk_node ''Program'' [
             (''body'', Arr [
                mk_node ''VariableDeclaration'' [
                  (''declarations'', Arr [
                     mk_node ''VariableDeclarator'' [
                       (''id'', mk_node ''Identifier'' [(''name'', Str ''x'')]),
                       (''init'', mk_node ''CallExpression'' [
                          (''callee'', mk_node ''Identifier'' [(''name'', Str ''cva'')]),
                          (''arguments'', Arr [
                             mk_node ''ArrayExpression'' [
                               (''elements'', Arr [
                                  mk_node ''Literal'' [(''value'', Str ''a b''), (''raw'', Str ''\"a b\"'')],
                                  mk_node ''LogicalExpression'' [
                                    (''left'', mk_node ''Identifier'' [(''name'', Str ''cond'')]),
                                    (''operator'', Str ''&&''),
                                    (''right'', mk_node ''Literal'' [(''value'', Str ''c d''),
                                                                     (''raw'', Str ''\"c d\"'')])]])]]),
                          (''optional'', Bool False)])]]),
                  (''kind'', Str ''const'')]]),
             (''sourceType'', Str ''module'')])])"

text \<open>The attribute events of
  \<^verbatim>\<open><div class="a b" id="x" data-foo="c d" aria-hidden="true">\<close>, in document order.\<close>

definition events_div :: "(string \<times> string) list" where
  "events_div =
     [(''class'', ''a b''), (''id'', ''x''), (''data-foo'', ''c d''), (''aria-hidden'', ''true'')]"

text \<open>The tokens of \<^verbatim>\<open>const x = "btn btn-primary"; const y = 42;\<close>: the label of each
  token's type, and its value.\<close>

definition tokens_btn :: "token list" where
  "tokens_btn =
     [\<lparr>label = ''const'', tvalue = Str ''const''\<rparr>, \<lparr>label = ''name'', tvalue = Str ''x''\<rparr>,
      \<lparr>label = ''='', tvalue = Str ''=''\<rparr>,
      \<lparr>label = ''string'', tvalue = Str ''btn btn-primary''\<rparr>,
      \<lparr>label = '';'', tvalue = Undefined\<rparr>,
      \<lparr>label = ''const'', tvalue = Str ''const''\<rparr>, \<lparr>label = ''name'', tvalue = Str ''y''\<rparr>,
      \<lparr>label = ''='', tvalue = Str ''=''\<rparr>, \<lparr>label = ''num'', tvalue = Num 42\<rparr>,
      \<lparr>label = '';'', tvalue = Undefined\<rparr>]"

section \<open>Unfolding the walk\<close>

text \<open>The two loops inside \<open>visit\<close>, named so that the equation of \<open>visit\<close> can be used as
  a rewrite rule on a given tree.\<close>

definition visit_item :: "jv \<Rightarrow> jv \<Rightarrow> (error + jv \<times> jv) list" where
  "visit_item node item =
     (if item = Undefined then [Inl TypeError]
      else if item \<noteq> Null \<and> is_node item then visit item node else [])"

definition visit_val :: "jv \<Rightarrow> jv \<Rightarrow> (error + jv \<times> jv) list" where
  "visit_val node val =
     (case val of
        Arr items \<Rightarrow> concat (map (visit_item node) items)
      | Obj kvs \<Rightarrow> if is_node val then visit val node else []
      | _ \<Rightarrow> [])"

definition global_meta :: Selector where
  \<comment> \<open>\<open>{ type: node.type, name: node.name }\<close> of a \<open>:global\<close> selector\<close>
  "global_meta = \<lparr>sel_type = ''PseudoClassSelector'', sel_name = Some ''global''\<rparr>"

section \<open>Properties of the regular expression\<close>

lemma backtrack_None: "(backtrack r = None) = (\<forall>c\<in>set r. c = CHR '':'')"
proof (induction r rule: backtrack.induct)
  case 1
  show ?case by simp
next
  case (2 c cs)
  show ?case
  proof (cases "last (c # cs) = CHR '':''")
    case False
    then have "backtrack (c # cs) = Some (c # cs)" by (simp only: backtrack.simps simp_thms if_True)
    moreover have "last (c # cs) \<in> set (c # cs)" by (rule last_in_set) simp
    ultimately show ?thesis using False by auto
  next
    case True
    then have eq: "backtrack (c # cs) = backtrack (butlast (c # cs))"
      by (simp only: backtrack.simps simp_thms if_False)
    have "c # cs = butlast (c # cs) @ [last (c # cs)]" by (rule append_butlast_last_id[symmetric]) simp
    then have "set (c # cs) = set (butlast (c # cs)) \<union> {CHR '':''}"
      using True by (metis list.set(1) list.simps(15) set_append Un_insert_right sup_bot.right_neutral)
    with "2.IH" True eq show ?thesis by auto
  qed
qed

lemma match_at_None: "(match_at s = None) = (\<forall>c\<in>set (takeWhile in_class s). c = CHR '':'')"
  unfolding match_at_def by (rule backtrack_None)

lemma exec_None: "(exec s = None) = (\<forall>c\<in>set s. in_class c \<longrightarrow> c = CHR '':'')"
proof (induction s)
  case Nil
  show ?case by simp
next
  case (Cons x xs)
  have step: "(exec (x # xs) = None) = (match_at (x # xs) = None \<and> exec xs = None)"
    by (auto split: option.splits)
  have run: "(match_at (x # xs) = None) = (in_class x \<longrightarrow> x = CHR '':'' \<and> match_at xs = None)"
    unfolding match_at_None by auto
  show ?case
  proof
    assume "exec (x # xs) = None"
    with step run Cons.IH show "\<forall>c\<in>set (x # xs). in_class c \<longrightarrow> c = CHR '':''" by auto
  next
    assume all: "\<forall>c\<in>set (x # xs). in_class c \<longrightarrow> c = CHR '':''"
    then have "\<forall>c\<in>set (takeWhile in_class (x # xs)). c = CHR '':''"
      by (meson set_takeWhileD)
    then have "match_at (x # xs) = None" unfolding match_at_None .
    moreover from all Cons.IH have "exec xs = None" by simp
    ultimately show "exec (x # xs) = None" using step by simp
  qed
qed

lemma regexp_test_iff: "regexp_test T = (\<exists>c\<in>set T. in_class c \<and> c \<noteq> CHR '':'')"
  unfolding regexp_test_def exec_None by blast

lemma spec_shape_filter_last: "spec_shape_filter u \<Longrightarrow> in_class (last u) \<and> last u \<noteq> CHR '':'' \<and> last u \<in> set u"
  unfolding spec_shape_filter_def by (simp add: list_all_iff)

text \<open>
  Claim C1, as the code has it. A token passes the filter exactly when some part of it
  (a contiguous substring) matches \<open>[\w\-:./![\]]+\<close> and does not end in a colon: the
  test is not anchored, so the token itself may end in a colon. \<open>hover:\<close> passes, and so
  do \<open>hover:bg-red-500\<close> and \<open>w-1/2\<close>.
\<close>

theorem shape_filter_substring:
  "(regexp_test T = (\<exists>u. sublist u T \<and> spec_shape_filter u))
   \<and> regexp_test ''hover:'' \<and> regexp_test ''hover:bg-red-500'' \<and> regexp_test ''w-1/2''"
proof -
  have "regexp_test T = (\<exists>u. sublist u T \<and> spec_shape_filter u)"
  proof
    assume "regexp_test T"
    then obtain c where c: "c \<in> set T" "in_class c" "c \<noteq> CHR '':''"
      unfolding regexp_test_iff by blast
    from c(1) obtain pre post where "T = pre @ [c] @ post" by (auto simp: in_set_conv_decomp)
    then have "sublist [c] T" unfolding sublist_def by blast
    moreover from c have "spec_shape_filter [c]" by (simp add: spec_shape_filter_def)
    ultimately show "\<exists>u. sublist u T \<and> spec_shape_filter u" by blast
  next
    assume "\<exists>u. sublist u T \<and> spec_shape_filter u"
    then obtain u where u: "sublist u T" "spec_shape_filter u" by blast
    from u(2) have l: "in_class (last u)" "last u \<noteq> CHR '':''" "last u \<in> set u"
      using spec_shape_filter_last by blast+
    from u(1) have "set u \<subseteq> set T" by (rule set_mono_sublist)
    with l show "regexp_test T" unfolding regexp_test_iff by blast
  qed
  moreover have "regexp_test ''hover:''" by code_simp
  moreover have "regexp_test ''hover:bg-red-500''" by code_simp
  moreover have "regexp_test ''w-1/2''" by code_simp
  ultimately show ?thesis by blast
qed

text \<open>Claim C1 as stated fails: the code's filter accepts \<open>hover:\<close>, which the
  specification's filter rejects.\<close>

theorem shape_filter_accepts_trailing_colon: "regexp_test ''hover:'' \<and> \<not> spec_shape_filter ''hover:''"
  by code_simp

lemma match_all_props: "m \<in> set (match_all s) \<Longrightarrow> m \<noteq> [] \<and> last m \<noteq> CHR '':''"
proof (induction s rule: match_all.induct)
  case (1 s)
  show ?case
  proof (cases "exec s")
    case None
    with "1.prems" show ?thesis by (simp add: match_all.simps[of s])
  next
    case (Some p)
    obtain i m' where p: "p = (i, m')" by (cases p)
    with Some have ex: "exec s = Some (i, m')" by simp
    then have unfold: "match_all s = m' # match_all (drop (i + length m') s)"
      by (simp add: match_all.simps[of s])
    show ?thesis
    proof (cases "m = m'")
      case True
      with exec_Some[OF ex] show ?thesis by simp
    next
      case False
      with "1.prems" unfold have "m \<in> set (match_all (drop (i + length m') s))" by simp
      with "1.IH"[OF ex refl] show ?thesis by simp
    qed
  qed
qed

lemma set_fold_set_add: "set (fold set_add xs acc) = set xs \<union> set acc"
  by (induction xs arbitrary: acc) (auto simp: set_add_def)

lemma format_class_props: "m \<noteq> [] \<Longrightarrow> (\<exists>t. format_class m = CHR ''.'' # t) \<and> last (format_class m) = last m"
  by (cases m) (auto simp: format_class_def)

section \<open>Properties of \<open>extractSelectorsWithRegex\<close>\<close>

text \<open>
  Claim C10. Every element of the sequence \<open>extractSelectorsWithRegex\<close> returns begins
  with a dot, and none ends with a colon.
\<close>

theorem regex_selectors_dot_no_colon: "\<forall>x\<in>set (extractSelectorsWithRegex code). (\<exists>t. x = CHR ''.'' # t) \<and> last x \<noteq> CHR '':''"
proof
  fix x assume "x \<in> set (extractSelectorsWithRegex code)"
  then obtain m where m: "m \<in> set (match_all code)" "x = format_class m"
    by (auto simp: extractSelectorsWithRegex_def set_fold_set_add)
  from match_all_props[OF m(1)] have "m \<noteq> []" "last m \<noteq> CHR '':''" by auto
  with format_class_props[of m] m(2) show "(\<exists>t. x = CHR ''.'' # t) \<and> last x \<noteq> CHR '':''" by auto
qed

theorem regex_selectors_dot_no_colon_witness:
  "''.hover'' \<in> set (extractSelectorsWithRegex ''hover: sm:p-4'')
   \<and> (\<exists>t. ''.hover'' = CHR ''.'' # t) \<and> last ''.hover'' \<noteq> CHR '':''"
proof -
  have e: "extractSelectorsWithRegex ''hover: sm:p-4'' = [''.hover'', ''.sm:p-4'']" by code_simp
  then have m: "''.hover'' \<in> set (extractSelectorsWithRegex ''hover: sm:p-4'')" by simp
  with regex_selectors_dot_no_colon[of "''hover: sm:p-4''"] show ?thesis by blast
qed


section \<open>Properties of \<open>extractSelectorsFromHtml\<close>\<close>

lemma events_div_tests:
  "regexp_test ''c''" "regexp_test ''d''" "regexp_test ''data-foo''"
  "regexp_test ''true''" "regexp_test ''aria-hidden''"
  by code_simp+

lemma events_div_splits:
  "split_on CHR '' '' ''a b'' = [''a'', ''b'']" "split_on CHR '' '' ''c d'' = [''c'', ''d'']"
  "split_on CHR '' '' ''true'' = [''true'']"
  by code_simp+

text \<open>
  The result for \<^verbatim>\<open><div class="a b" id="x" data-foo="c d" aria-hidden="true">\<close> as a
  function of the reserved list: \<open>#x\<close>, \<open>.a\<close> and \<open>.b\<close> always; \<open>.c\<close>, \<open>.d\<close> and \<open>.data-foo\<close>
  unless \<open>data-foo\<close> is reserved; \<open>.true\<close> and \<open>.aria-hidden\<close> unless \<open>aria-hidden\<close> is
  reserved. Which of these the program returns is decided by the list in \<open>./constants\<close>.
\<close>

lemma markup_example_by_reserved_list:
  "extractSelectorsFromHtml ATTRIBUTES events_div
     = [''#x'', ''.a'', ''.b'']
       @ (if ''data-foo'' \<in> set ATTRIBUTES then [] else [''.c'', ''.d'', ''.data-foo''])
       @ (if ''aria-hidden'' \<in> set ATTRIBUTES then [] else [''.true'', ''.aria-hidden''])"
  by (simp add: extractSelectorsFromHtml_def events_div_def onattribute_def events_div_tests
      events_div_splits set_add_def format_class_def)

lemma split_on_double: "sublist [sep, sep] s \<Longrightarrow> [] \<in> set (tl (split_on sep s))"
proof -
  assume "sublist [sep, sep] s"
  then obtain pre post where s: "s = pre @ [sep, sep] @ post" unfolding sublist_def by blast
  have "[] \<in> set (tl (split_on sep (pre @ [sep, sep] @ post)))"
  proof (induction pre)
    case Nil
    show ?case by simp
  next
    case (Cons c pre)
    show ?case
    proof (cases "c = sep")
      case True
      from Cons have "[] \<in> set (split_on sep (pre @ [sep, sep] @ post))"
        by (cases "split_on sep (pre @ [sep, sep] @ post)") auto
      with True show ?thesis by simp
    next
      case False
      with Cons show ?thesis by (auto split: list.splits)
    qed
  qed
  with s show ?thesis by simp
qed

lemma split_on_empty_token: "v = [] \<or> sublist [sep, sep] v \<Longrightarrow> [] \<in> set (split_on sep v)"
proof (cases "v = []")
  case True
  then show ?thesis by simp
next
  case False
  assume "v = [] \<or> sublist [sep, sep] v"
  with False have "[] \<in> set (tl (split_on sep v))" by (simp add: split_on_double)
  then show ?thesis by (cases "split_on sep v") auto
qed

lemma fold_test_mono:
  "set acc \<subseteq> set (fold (\<lambda>selector acc. if regexp_test selector then set_add selector acc else acc) xs acc)"
proof (induction xs arbitrary: acc)
  case Nil
  show ?case by simp
next
  case (Cons x xs)
  have "set acc \<subseteq> set (if regexp_test x then set_add x acc else acc)"
    by (auto simp: set_add_def)
  also have "\<dots> \<subseteq> set (fold (\<lambda>selector acc. if regexp_test selector then set_add selector acc else acc) xs
                       (if regexp_test x then set_add x acc else acc))"
    by (rule Cons.IH)
  finally show ?case by simp
qed

lemma onattribute_mono: "set (fst st) \<subseteq> set (fst (onattribute A name val st))"
proof -
  obtain sels idl where st: "st = (sels, idl)" by (cases st)
  have "set sels \<subseteq> set (fst (onattribute A name val (sels, idl)))"
    using fold_test_mono[of sels "split_on CHR '' '' val"]
    by (auto simp: onattribute_def set_fold_set_add set_add_def Let_def)
  with st show ?thesis by simp
qed

lemma onattribute_class: "set (split_on CHR '' '' val) \<subseteq> set (fst (onattribute A ''class'' val st))"
  by (cases st) (auto simp: onattribute_def set_fold_set_add)

lemma fold_onattribute_mono:
  "set (fst st) \<subseteq> set (fst (fold (\<lambda>(name, val). onattribute A name val) events st))"
proof (induction events arbitrary: st)
  case Nil
  show ?case by simp
next
  case (Cons e events)
  obtain name val where e: "e = (name, val)" by (cases e)
  have "set (fst st) \<subseteq> set (fst (onattribute A name val st))" by (rule onattribute_mono)
  also have "\<dots> \<subseteq> set (fst (fold (\<lambda>(name, val). onattribute A name val) events
                               (onattribute A name val st)))"
    by (rule Cons.IH)
  finally show ?case using e by simp
qed

lemma fold_onattribute_class:
  "(''class'', val) \<in> set events \<Longrightarrow>
     set (split_on CHR '' '' val)
       \<subseteq> set (fst (fold (\<lambda>(name, val). onattribute A name val) events st))"
proof (induction events arbitrary: st)
  case Nil
  then show ?case by simp
next
  case (Cons e events)
  show ?case
  proof (cases "e = (''class'', val)")
    case True
    have "set (split_on CHR '' '' val) \<subseteq> set (fst (onattribute A ''class'' val st))"
      by (rule onattribute_class)
    also have "\<dots> \<subseteq> set (fst (fold (\<lambda>(name, val). onattribute A name val) events
                                 (onattribute A ''class'' val st)))"
      by (rule fold_onattribute_mono)
    finally show ?thesis using True by simp
  next
    case False
    with Cons.prems have "(''class'', val) \<in> set events" by simp
    from Cons.IH[OF this] show ?thesis by (cases e) simp
  qed
qed

text \<open>
  Claim C9. The value of a \<open>class\<close> attribute is split at every single space and no token
  is filtered: when the value is empty or has two spaces in a row, the empty token
  enters the class set and the result contains the bare string \<open>.\<close>; so it does for
  \<^verbatim>\<open><div class="">\<close>.
\<close>

theorem empty_class_token_gives_dot:
  assumes "(''class'', val) \<in> set events" and "val = [] \<or> sublist ''  '' val"
  shows "''.'' \<in> set (extractSelectorsFromHtml ATTRIBUTES events)"
proof -
  from assms(2) have "[] \<in> set (split_on CHR '' '' val)" by (rule split_on_empty_token)
  with fold_onattribute_class[OF assms(1), of ATTRIBUTES "([], [])"]
  have "[] \<in> set (fst (fold (\<lambda>(name, val). onattribute ATTRIBUTES name val) events ([], [])))"
    by blast
  moreover obtain sels idl
    where f: "fold (\<lambda>(name, val). onattribute ATTRIBUTES name val) events ([], []) = (sels, idl)"
    by (cases "fold (\<lambda>(name, val). onattribute ATTRIBUTES name val) events ([], [])")
  ultimately have "[] \<in> set sels" by simp
  then have "format_class [] \<in> set (map format_class sels)" by simp
  then have "format_class [] \<in> set (extractSelectorsFromHtml ATTRIBUTES events)"
    by (simp add: extractSelectorsFromHtml_def f)
  then show ?thesis by (simp add: format_class_def)
qed

theorem empty_class_token_gives_dot_witness:
  "(''class'', '''') \<in> set [(''class'', '''')]
   \<and> ''.'' \<in> set (extractSelectorsFromHtml [] [(''class'', '''')])
   \<and> extractSelectorsFromHtml [] [(''class'', '''')] = [''.'']
   \<and> sublist ''  '' ''a  b''
   \<and> ''.'' \<in> set (extractSelectorsFromHtml [] [(''class'', ''a  b'')])"
proof -
  have m: "(''class'', '''') \<in> set [(''class'', '''')]" by simp
  have d: "''.'' \<in> set (extractSelectorsFromHtml [] [(''class'', '''')])"
    by (rule empty_class_token_gives_dot[OF m]) simp
  have e: "extractSelectorsFromHtml [] [(''class'', '''')] = [''.'']" by code_simp
  have "''a  b'' = ''a'' @ ''  '' @ ''b''" by simp
  then have s: "sublist ''  '' ''a  b''" unfolding sublist_def by blast
  have "''.'' \<in> set (extractSelectorsFromHtml [] [(''class'', ''a  b'')])"
    by (rule empty_class_token_gives_dot[of "''a  b''"]) (simp_all add: s)
  with m d e s show ?thesis by blast
qed

section \<open>Properties of \<open>extractSelectorsFromJS\<close>\<close>

text \<open>
  Claim C5. For \<^verbatim>\<open>const x = "btn btn-primary"; const y = 42;\<close> the function returns
  \<open>.btn\<close> and \<open>.btn-primary\<close> and nothing else; the number \<open>42\<close> adds no selector.
\<close>

theorem script_example_selectors:
  "extractSelectorsFromJS tokens_btn = Inr [''.btn'', ''.btn-primary'']
   \<and> (\<exists>out. extractSelectorsFromJS tokens_btn = Inr out \<and> set out = {''.btn'', ''.btn-primary''})"
proof -
  have "extractSelectorsFromJS tokens_btn = Inr [''.btn'', ''.btn-primary'']" by code_simp
  then show ?thesis by auto
qed

section \<open>Properties of \<open>extractSelectorsFromSvelte\<close>\<close>

lemma visit_unfold:
  "visit node parent = Inr (node, parent) # concat (map (visit_val node) (properties node))"
  unfolding visit_val_def visit_item_def by (subst visit.simps) (rule refl)

lemmas tree_simps = visit_unfold visit_val_def visit_item_def is_node_def properties_def get_def
  mk_node_def mk_ast_def

lemmas enter_simps = enter_def enter_Identifier_def enter_class_Attribute_def enter_Attribute_def
  enter_global_def enter_Literal_def enter_TemplateElement_def set_named_def bind_err_def
  index0_def nullish_def opt_def truthy_def

text \<open>
  Claim C2 at \<^verbatim>\<open><div class="a b"></div>\<close>. The token \<open>b\<close> of the text part passes the
  filter, and the function does not return \<open>.b\<close>: \<open>CLASS_REGEX.test("a")\<close> leaves
  \<open>lastIndex\<close> at 1, so \<open>CLASS_REGEX.test("b")\<close> searches from index 1 on and fails, in
  the first pass over the attribute's value and in the second.
\<close>

theorem class_text_token_dropped:
  "regexp_test ''b'' \<and> ''b'' \<in> set (filter_Boolean (split_ws ''a b''))
   \<and> regexp_test_g 0 ''a'' = (True, 1) \<and> regexp_test_g 1 ''b'' = (False, 0)
   \<and> extractSelectorsFromSvelte ast_two_classes = Inr [''div'', ''.a'', ''class'']"
  by code_simp

text \<open>In the walk of the \<open>cva\<close> template the binding table stays empty: the callee \<open>cva\<close>
  is an identifier and has no \<open>object\<close>, so \<open>callee?.object?.elements\<close> is \<open>undefined\<close>.
  The four tokens are registered by the rule for string literals.\<close>

lemma cva_binding_not_captured:
  "walk ast_cva \<lparr>selectors = [], identifiers = [], ids = []\<rparr>
     = Inr \<lparr>selectors = [(''div'', \<lparr>sel_type = ''Element'', sel_name = None\<rparr>),
                          (''class'', \<lparr>sel_type = ''Attribute'', sel_name = None\<rparr>),
                          (''a'', Class), (''b'', Class), (''c'', Class), (''d'', Class)],
            identifiers = [''x''], ids = []\<rparr>"
  by code_simp

text \<open>
  Claim C3. For the template with \<^verbatim>\<open>const x = cva(["a b", cond && "c d"])\<close> and
  \<^verbatim>\<open><div class={x}>\<close> the returned sequence includes \<open>.a\<close>, \<open>.b\<close>, \<open>.c\<close> and \<open>.d\<close>.
\<close>

theorem cva_literals_extracted:
  "\<exists>out. extractSelectorsFromSvelte ast_cva = Inr out
      \<and> ''.a'' \<in> set out \<and> ''.b'' \<in> set out \<and> ''.c'' \<in> set out \<and> ''.d'' \<in> set out"
proof -
  have "extractSelectorsFromSvelte ast_cva = Inr [''div'', ''class'', ''.a'', ''.b'', ''.c'', ''.d'']"
    by code_simp
  then show ?thesis by simp
qed

text \<open>On a \<open>:global\<close> selector node \<open>enter\<close> registers every piece, whatever the state and
  the parent are.\<close>

lemma enter_global_node:
  "enter (mk_node ''PseudoClassSelector''
            [(''name'', Str ''global''), (''children'', Arr [mk_node ''Raw'' [(''value'', Str raw)]])])
         parent st
     = Inr (st\<lparr>selectors := fold (\<lambda>selector. map_set (trim selector) global_meta)
                               (split_on CHR '','' raw) (selectors st)\<rparr>)"
  by (simp add: enter_simps tree_simps global_meta_def)

lemma walk_global:
  "walk (ast_global raw) \<lparr>selectors = [], identifiers = [], ids = []\<rparr> =
     Inr \<lparr>selectors = fold (\<lambda>selector. map_set (trim selector) global_meta)
                         (split_on CHR '','' raw) [],
          identifiers = [], ids = []\<rparr>"
  unfolding ast_global_def walk_def global_meta_def
  by (simp add: tree_simps enter_simps)

lemma map_fst_map_set: "map fst (map_set k v m) = set_add k (map fst m)"
proof (induction m)
  case Nil
  show ?case by (simp add: set_add_def)
next
  case (Cons p m)
  obtain k' v' where p: "p = (k', v')" by (cases p)
  show ?case
  proof (cases "k' = k")
    case True
    with p show ?thesis by (simp add: set_add_def)
  next
    case False
    with p Cons.IH show ?thesis by (simp add: set_add_def)
  qed
qed

lemma snd_map_set: "snd ` set (map_set k v m) \<subseteq> insert v (snd ` set m)"
proof (induction m)
  case Nil
  show ?case by simp
next
  case (Cons p m)
  obtain k' v' where p: "p = (k', v')" by (cases p)
  show ?case
  proof (cases "k' = k")
    case True
    with p show ?thesis by auto
  next
    case False
    with p Cons.IH show ?thesis by auto
  qed
qed

lemma fold_map_set_keys:
  "map fst (fold (\<lambda>x. map_set (f x) v) xs m) = fold (\<lambda>x. set_add (f x)) xs (map fst m)"
  by (induction xs arbitrary: m) (simp_all add: map_fst_map_set)

lemma fold_map_set_values:
  "snd ` set (fold (\<lambda>x. map_set (f x) v) xs m) \<subseteq> insert v (snd ` set m)"
proof (induction xs arbitrary: m)
  case Nil
  show ?case by auto
next
  case (Cons x xs)
  have "snd ` set (fold (\<lambda>x. map_set (f x) v) xs (map_set (f x) v m))
          \<subseteq> insert v (snd ` set (map_set (f x) v m))"
    by (rule Cons.IH)
  also have "\<dots> \<subseteq> insert v (insert v (snd ` set m))" using snd_map_set[of "f x" v m] by blast
  finally show ?case by simp
qed

lemma format_unprefixed:
  "\<forall>meta \<in> snd ` set m. sel_type meta \<notin> set CLASS_SELECTOR \<Longrightarrow> map format_selector m = map fst m"
  by (induction m) (auto simp: format_selector_def)

text \<open>
  Claim C6. For a template with the style rule \<open>:global(RAW)\<close> the function returns the
  pieces of \<open>RAW\<close> between the commas, each trimmed and otherwise unchanged, in their
  order and each once: no piece is tested against the regular expression and none gets
  a dot. So \<open>:global(.foo, .bar)\<close> gives \<open>.foo\<close> and \<open>.bar\<close>, and \<open>:global(.foo > p, *)\<close>
  gives \<open>.foo > p\<close> and \<open>*\<close>, of which the first is no token of the specification's
  filter and the second fails the test of the code.
\<close>

theorem global_selectors_pass_through:
  "extractSelectorsFromSvelte (ast_global raw)
     = Inr (fold (\<lambda>selector. set_add (trim selector)) (split_on CHR '','' raw) [])
   \<and> extractSelectorsFromSvelte (ast_global ''.foo, .bar'') = Inr [''.foo'', ''.bar'']
   \<and> extractSelectorsFromSvelte (ast_global ''.foo > p, *'') = Inr [''.foo > p'', ''*'']
   \<and> \<not> regexp_test ''*'' \<and> \<not> spec_shape_filter ''.foo > p''"
proof -
  let ?m = "fold (\<lambda>selector. map_set (trim selector) global_meta) (split_on CHR '','' raw) []"
  have "snd ` set ?m \<subseteq> {global_meta}"
    using fold_map_set_values[of trim global_meta _ "[]"] by simp
  then have "\<forall>meta \<in> snd ` set ?m. sel_type meta \<notin> set CLASS_SELECTOR"
    by (auto simp: global_meta_def CLASS_SELECTOR_def)
  then have "map format_selector ?m = map fst ?m" by (rule format_unprefixed)
  also have "\<dots> = fold (\<lambda>selector. set_add (trim selector)) (split_on CHR '','' raw) []"
    by (simp add: fold_map_set_keys)
  finally have "extractSelectorsFromSvelte (ast_global raw)
     = Inr (fold (\<lambda>selector. set_add (trim selector)) (split_on CHR '','' raw) [])"
    by (simp add: extractSelectorsFromSvelte_def walk_global resolve_def)
  moreover have "extractSelectorsFromSvelte (ast_global ''.foo, .bar'') = Inr [''.foo'', ''.bar'']"
    by code_simp
  moreover have "extractSelectorsFromSvelte (ast_global ''.foo > p, *'') = Inr [''.foo > p'', ''*'']"
    by code_simp
  moreover have "\<not> regexp_test ''*''" by code_simp
  moreover have "\<not> spec_shape_filter ''.foo > p''" by code_simp
  ultimately show ?thesis by blast
qed

lemma resolve_identifier_unbound:
  "map_get m ident = None \<Longrightarrow> resolve_identifier m ident sels = sels"
  by (simp add: resolve_identifier_def)

lemma fold_resolve_filter:
  "fold (resolve_identifier m) xs sels
     = fold (resolve_identifier m) (filter (\<lambda>ident. map_get m ident \<noteq> None) xs) sels"
  by (induction xs arbitrary: sels) (simp_all add: resolve_identifier_unbound)

text \<open>
  Claim C7. Whenever the walk of a tree ends without an error, the function returns a
  result, and it is the result computed from the identifiers of the pending set that have
  an entry in the binding table: an identifier without an entry adds no selector and
  raises no error. For \<^verbatim>\<open><div class={undeclaredVar}></div>\<close> the result is \<open>div\<close> and
  \<open>class\<close>.
\<close>

theorem unresolved_identifiers_dropped:
  assumes "walk ast \<lparr>selectors = [], identifiers = [], ids = []\<rparr> = Inr st"
  shows "extractSelectorsFromSvelte ast
           = Inr (map format_selector
                    (resolve (st\<lparr>identifiers :=
                                  filter (\<lambda>ident. map_get (ids st) ident \<noteq> None)
                                    (identifiers st)\<rparr>)))"
  using assms fold_resolve_filter[of "ids st" "identifiers st" "selectors st"]
  by (simp add: extractSelectorsFromSvelte_def resolve_def)

theorem unresolved_identifiers_dropped_witness:
  "walk ast_undeclared \<lparr>selectors = [], identifiers = [], ids = []\<rparr>
     = Inr \<lparr>selectors = [(''div'', \<lparr>sel_type = ''Element'', sel_name = None\<rparr>),
                          (''class'', \<lparr>sel_type = ''Attribute'', sel_name = None\<rparr>)],
            identifiers = [''undeclaredVar''], ids = []\<rparr>
   \<and> extractSelectorsFromSvelte ast_undeclared = Inr [''div'', ''class'']"
proof -
  let ?st = "\<lparr>selectors = [(''div'', \<lparr>sel_type = ''Element'', sel_name = None\<rparr>),
                          (''class'', \<lparr>sel_type = ''Attribute'', sel_name = None\<rparr>)],
            identifiers = [''undeclaredVar''], ids = []\<rparr>"
  have w: "walk ast_undeclared \<lparr>selectors = [], identifiers = [], ids = []\<rparr> = Inr ?st"
    by code_simp
  have "map format_selector
          (resolve (?st\<lparr>identifiers :=
                         filter (\<lambda>ident. map_get (ids ?st) ident \<noteq> None) (identifiers ?st)\<rparr>))
        = [''div'', ''class'']"
    by code_simp
  with unresolved_identifiers_dropped[OF w] w show ?thesis by simp
qed

end
